theory Spec2Isabelle
  imports Complex_Main
begin

section \<open>Bivariate Archimedean copulas: parameter estimation, cdf evaluation, family selection\<close>

text \<open>
  A shallow embedding of \<^verbatim>\<open>src/copula.py\<close>. Python floats and numpy doubles are
  idealised as reals: rounding, overflow and underflow are not represented, and the
  numbers the model's functions take and return are reals. Where the code's result would
  be \<^verbatim>\<open>inf\<close> or \<^verbatim>\<open>nan\<close> (a quotient by zero in \<^verbatim>\<open>compute_empirical\<close> and \<^verbatim>\<open>select_copula\<close>,
  the logarithm of a non-positive number as the last step of the Frank evaluator) the
  model applies HOL's total real functions to the same expression; no theorem below
  depends on what these return at such a point other than through the expression of the
  source. Inside the Clayton and Gumbel evaluators, where an infinite intermediate value
  leads back to a finite result, the non-finite values are represented (type \<open>npfloat\<close>).
  Python lists and numpy arrays of numbers are both lists of reals; what differs between
  them in the source (\<^verbatim>\<open>+\<close> on two lists appends them) is written out where it occurs.
  Exceptions are values of the type \<open>error\<close>, and a function that can raise returns
  \<open>error + 'a\<close>.
\<close>

subsection \<open>Exceptions\<close>

datatype error =
    ValueError string
  | Exception string
  | IndexError
  | ZeroDivisionError
  | TypeError
  | AttributeError

text \<open>A list of results, evaluated left to right: the first exception is the outcome.\<close>

fun sequence_err :: "(error + 'a) list \<Rightarrow> error + 'a list" where
  "sequence_err [] = Inr []"
| "sequence_err (Inl e # rs) = Inl e"
| "sequence_err (Inr x # rs) = (case sequence_err rs of Inl e \<Rightarrow> Inl e | Inr xs \<Rightarrow> Inr (x # xs))"

text \<open>\<^verbatim>\<open>xs[i]\<close> for an index that is never negative.\<close>

definition py_getitem :: "'a list \<Rightarrow> nat \<Rightarrow> error + 'a" where
  "py_getitem xs i = (if i < length xs then Inr (xs ! i) else Inl IndexError)"

subsection \<open>The library routines the module calls\<close>

text \<open>
  \<^verbatim>\<open>scipy.stats.kendalltau\<close>, \<^verbatim>\<open>scipy.optimize.fmin\<close> and \<^verbatim>\<open>scipy.integrate.quad\<close> are
  not part of the repository; the model takes them as parameters. \<open>kendalltau lib U V\<close>
  stands for \<^verbatim>\<open>kendalltau(U, V)[0]\<close> (the routine raises on inputs of different sizes),
  \<open>fmin lib f x0\<close> for \<^verbatim>\<open>fmin(f, x0, disp=False)[0]\<close> and \<open>quad lib f a b\<close> for
  \<^verbatim>\<open>quad(f, a, b)[0]\<close>.
\<close>

record lib =
  kendalltau :: "real list \<Rightarrow> real list \<Rightarrow> error + real"
  fmin :: "(real \<Rightarrow> real) \<Rightarrow> real \<Rightarrow> real"
  quad :: "(real \<Rightarrow> real) \<Rightarrow> real \<Rightarrow> real \<Rightarrow> real"

text \<open>\<^verbatim>\<open>sys.float_info.epsilon\<close> of an IEEE double.\<close>

definition float_epsilon :: real where
  "float_epsilon = 1 / 2 ^ 52"

subsection \<open>numpy on sequences\<close>

text \<open>
  An elementwise binary operation on two one-dimensional operands: equal lengths pair up,
  an operand of length one is broadcast, anything else raises \<^verbatim>\<open>ValueError\<close>.
\<close>

definition np_broadcast :: "('a \<Rightarrow> 'b \<Rightarrow> 'c) \<Rightarrow> 'a list \<Rightarrow> 'b list \<Rightarrow> error + 'c list" where
  "np_broadcast f xs ys =
     (if length xs = length ys then Inr (map2 f xs ys)
      else if length xs = 1 then Inr (map (f (hd xs)) ys)
      else if length ys = 1 then Inr (map (\<lambda>x. f x (hd ys)) xs)
      else Inl (ValueError ''operands could not be broadcast together''))"

definition np_multiply :: "real list \<Rightarrow> real list \<Rightarrow> error + real list" where
  "np_multiply = np_broadcast (*)"

subsection \<open>Doubles inside the evaluators\<close>

text \<open>
  The Clayton and Gumbel evaluators pass through infinite intermediate values and come
  back to finite results: \<^verbatim>\<open>0.0 ** -theta\<close> is \<^verbatim>\<open>inf\<close> and \<^verbatim>\<open>inf ** (-1/theta)\<close> is \<^verbatim>\<open>0.0\<close>;
  \<^verbatim>\<open>log 0.0\<close> is \<^verbatim>\<open>-inf\<close> and \<^verbatim>\<open>exp(-inf)\<close> is \<^verbatim>\<open>0.0\<close>. Inside these two evaluators a double is
  therefore an exact real or one of the three non-finite values, with the arithmetic of
  IEEE 754 on them (numpy warns and does not raise). The sign of zero is not represented.
\<close>

datatype npfloat = Finite real | PosInf | NegInf | NaN

fun np_neg :: "npfloat \<Rightarrow> npfloat" where
  "np_neg (Finite x) = Finite (- x)"
| "np_neg PosInf = NegInf"
| "np_neg NegInf = PosInf"
| "np_neg NaN = NaN"

fun np_add :: "npfloat \<Rightarrow> npfloat \<Rightarrow> npfloat" where
  "np_add (Finite x) (Finite y) = Finite (x + y)"
| "np_add NaN y = NaN"
| "np_add x NaN = NaN"
| "np_add PosInf NegInf = NaN"
| "np_add NegInf PosInf = NaN"
| "np_add PosInf y = PosInf"
| "np_add NegInf y = NegInf"
| "np_add x PosInf = PosInf"
| "np_add x NegInf = NegInf"

definition np_sub :: "npfloat \<Rightarrow> npfloat \<Rightarrow> npfloat" where
  "np_sub x y = np_add x (np_neg y)"

text \<open>
  \<^verbatim>\<open>np.power\<close> with a floating exponent, which is the C function \<^verbatim>\<open>pow\<close>: anything to the
  power zero is one; a positive base gives the real power; base zero gives zero for a
  positive exponent and \<^verbatim>\<open>inf\<close> for a negative one; a negative base gives the integer power
  when the exponent is an integer and \<^verbatim>\<open>nan\<close> otherwise.
\<close>

definition np_power :: "npfloat \<Rightarrow> real \<Rightarrow> npfloat" where
  "np_power b y =
     (if y = 0 then Finite 1
      else
        (case b of
           Finite x \<Rightarrow>
             (if 0 < x then Finite (x powr y)
              else if x = 0 then (if 0 < y then Finite 0 else PosInf)
              else if of_int \<lfloor>y\<rfloor> = y then Finite (x powi \<lfloor>y\<rfloor>)
              else NaN)
         | PosInf \<Rightarrow> (if 0 < y then PosInf else Finite 0)
         | NegInf \<Rightarrow>
             (if 0 < y then (if of_int \<lfloor>y\<rfloor> = y \<and> odd \<lfloor>y\<rfloor> then NegInf else PosInf)
              else Finite 0)
         | NaN \<Rightarrow> NaN))"

text \<open>\<^verbatim>\<open>np.log\<close> of a real argument and \<^verbatim>\<open>np.exp\<close>.\<close>

definition np_log :: "real \<Rightarrow> npfloat" where
  "np_log x = (if 0 < x then Finite (ln x) else if x = 0 then NegInf else NaN)"

fun np_exp :: "npfloat \<Rightarrow> npfloat" where
  "np_exp (Finite x) = Finite (exp x)"
| "np_exp PosInf = PosInf"
| "np_exp NegInf = Finite 0"
| "np_exp NaN = NaN"

text \<open>
  Python's \<^verbatim>\<open>max(x, 0)\<close>: \<^verbatim>\<open>x\<close> unless \<^verbatim>\<open>0 > x\<close>, so a \<^verbatim>\<open>nan\<close> stays.
\<close>

fun py_max0 :: "npfloat \<Rightarrow> npfloat" where
  "py_max0 (Finite x) = Finite (max x 0)"
| "py_max0 PosInf = PosInf"
| "py_max0 NegInf = Finite 0"
| "py_max0 NaN = NaN"

text \<open>
  The lists the evaluators return are lists of reals. An entry that the code computes as
  \<^verbatim>\<open>inf\<close> or \<^verbatim>\<open>nan\<close> (which needs an argument outside \<open>[0, 1]\<close>) has no real value; the model
  carries \<open>0\<close> for it.
\<close>

fun np_value :: "npfloat \<Rightarrow> real" where
  "np_value (Finite x) = x"
| "np_value PosInf = 0"
| "np_value NegInf = 0"
| "np_value NaN = 0"

subsection \<open>The copula instance\<close>

type_synonym cdf_fun = "real list \<Rightarrow> real list \<Rightarrow> real \<Rightarrow> error + real list"

text \<open>
  The derivative evaluators are closures built by \<^verbatim>\<open>_get_du\<close>; an instance records which
  one it holds.
\<close>

datatype du_fun = Du_clayton | Du_frank | Du_gumbel

record copula =
  self_U :: "real list"
  self_V :: "real list"
  self_theta :: "real option"
  self_cname :: "string option"
  self_tau :: real
  self_cdf :: "cdf_fun option"
  self_derivative :: "du_fun option"

text \<open>\<^verbatim>\<open>str(cname)\<close> and the truth value of \<^verbatim>\<open>cname\<close> in \<^verbatim>\<open>if cname:\<close>.\<close>

definition str_cname :: "string option \<Rightarrow> string" where
  "str_cname c = (case c of None \<Rightarrow> ''None'' | Some s \<Rightarrow> s)"

definition truthy :: "string option \<Rightarrow> bool" where
  "truthy c = (case c of None \<Rightarrow> False | Some s \<Rightarrow> s \<noteq> [])"

subsection \<open>Parameter estimation\<close>

definition debye :: "real \<Rightarrow> real" where
  "debye t = t / (exp t - 1)"

text \<open>\<^verbatim>\<open>_frank_help\<close>: \<^verbatim>\<open>debye_value\<close> is computed and then not read.\<close>

definition frank_help :: "lib \<Rightarrow> copula \<Rightarrow> real \<Rightarrow> real" where
  "frank_help lib self alpha =
     (let debye_value = quad lib debye float_epsilon alpha / alpha;
          diff = (1 - self_tau self) / 4 - (debye (- alpha) - 1) / alpha
      in diff ^ 2)"

text \<open>\<^verbatim>\<open>_get_parameter\<close>: assigns \<^verbatim>\<open>self.theta\<close> for the three family names, nothing otherwise.\<close>

definition get_parameter :: "lib \<Rightarrow> copula \<Rightarrow> copula" where
  "get_parameter lib self =
     (if self_cname self = Some ''clayton'' then
        (if self_tau self = 1 then self\<lparr>self_theta := Some 10000\<rparr>
         else self\<lparr>self_theta := Some (2 * self_tau self / (1 - self_tau self))\<rparr>)
      else if self_cname self = Some ''frank'' then
        self\<lparr>self_theta := Some (- fmin lib (frank_help lib self) (- 5))\<rparr>
      else if self_cname self = Some ''gumbel'' then
        (if self_tau self = 1 then self\<lparr>self_theta := Some 10000\<rparr>
         else self\<lparr>self_theta := Some (1 / (1 - self_tau self))\<rparr>)
      else self)"

subsection \<open>The cdf evaluators\<close>

definition cdf_clayton :: cdf_fun where
  "cdf_clayton U V theta =
     (if theta < 0 then Inl (ValueError ''Theta cannot be than 0 for clayton'')
      else if theta = 0 then np_multiply U V
      else
        (case sequence_err (map (\<lambda>i.
                if U ! i > 0 then
                  (case py_getitem V i of
                     Inl e \<Rightarrow> Inl e
                   | Inr v \<Rightarrow>
                       Inr (np_power (np_sub (np_add (np_power (Finite (U ! i)) (- theta))
                                                     (np_power (Finite v) (- theta)))
                                             (Finite 1))
                                     (- 1 / theta)))
                else Inr (Finite 0)) [0..<length U]) of
           Inl e \<Rightarrow> Inl e
         | Inr cdf \<Rightarrow> Inr (map (\<lambda>x. np_value (py_max0 x)) cdf)))"

definition cdf_frank :: cdf_fun where
  "cdf_frank U V theta =
     (if theta < 0 then Inl (ValueError ''Theta cannot be less than 0 for Frank'')
      else if theta = 0 then np_multiply U V
      else
        (case np_multiply (map (\<lambda>u. exp (- theta * u) - 1) U)
                          (map (\<lambda>v. exp (- theta * v) - 1) V) of
           Inl e \<Rightarrow> Inl e
         | Inr num \<Rightarrow>
             (let den = exp (- theta) - 1
              in Inr (map (\<lambda>n. - 1 / theta * ln (1 + n / den)) num))))"

definition cdf_gumbel :: cdf_fun where
  "cdf_gumbel U V theta =
     (if theta < 1 then Inl (ValueError ''Theta cannot be less than 1 for Gumbel'')
      else if theta = 1 then np_multiply U V
      else
        (case sequence_err (map (\<lambda>i.
            if U ! i = 0 then Inr (Finite 0)
            else
              (case py_getitem V i of
                 Inl e \<Rightarrow> Inl e
               | Inr v \<Rightarrow>
                   (let h = np_add (np_power (np_neg (np_log (U ! i))) theta)
                                   (np_power (np_neg (np_log v)) theta);
                        h' = np_neg (np_power h (1 / theta))
                    in Inr (np_exp h'))))
          [0..<length U]) of
           Inl e \<Rightarrow> Inl e
         | Inr cdfs \<Rightarrow> Inr (map np_value cdfs)))"

text \<open>\<^verbatim>\<open>_get_cdf\<close> and \<^verbatim>\<open>_get_du\<close>: the evaluator of the instance's family, or an exception.\<close>

definition get_cdf :: "copula \<Rightarrow> error + cdf_fun" where
  "get_cdf self =
     (if self_cname self = Some ''clayton'' then Inr cdf_clayton
      else if self_cname self = Some ''frank'' then Inr cdf_frank
      else if self_cname self = Some ''gumbel'' then Inr cdf_gumbel
      else Inl (Exception (''Unsupported distribution: '' @ str_cname (self_cname self))))"

definition get_du :: "copula \<Rightarrow> error + du_fun" where
  "get_du self =
     (if self_cname self = Some ''clayton'' then Inr Du_clayton
      else if self_cname self = Some ''frank'' then Inr Du_frank
      else if self_cname self = Some ''gumbel'' then Inr Du_gumbel
      else Inl (Exception (''Unsupported distribution: '' @ str_cname (self_cname self))))"

subsection \<open>Construction\<close>

definition Copula ::
  "lib \<Rightarrow> real list \<Rightarrow> real list \<Rightarrow> real option \<Rightarrow> string option \<Rightarrow> bool \<Rightarrow> error + copula" where
  "Copula lib U V theta cname dev =
     (case kendalltau lib U V of
        Inl e \<Rightarrow> Inl e
      | Inr t \<Rightarrow>
          (let self0 = \<lparr>self_U = U, self_V = V, self_theta = theta, self_cname = cname,
                        self_tau = t, self_cdf = None, self_derivative = None\<rparr>
           in case (if truthy cname then
                      (let self1 = get_parameter lib self0
                       in case get_cdf self1 of
                            Inl e \<Rightarrow> Inl e
                          | Inr f \<Rightarrow> Inr (self1\<lparr>self_cdf := Some f\<rparr>))
                    else Inr self0) of
                Inl e \<Rightarrow> Inl e
              | Inr self2 \<Rightarrow>
                  if dev then
                    (case get_du self2 of
                       Inl e \<Rightarrow> Inl e
                     | Inr d \<Rightarrow> Inr (self2\<lparr>self_derivative := Some d\<rparr>))
                  else Inr self2))"

text \<open>
  A call \<^verbatim>\<open>c.cdf(U, V, theta)\<close> on an instance: the attribute exists only when a family
  was given, and the evaluators compare \<^verbatim>\<open>theta\<close> with a number.
\<close>

definition call_cdf :: "copula \<Rightarrow> real list \<Rightarrow> real list \<Rightarrow> real option \<Rightarrow> error + real list" where
  "call_cdf c U V theta =
     (case self_cdf c of
        None \<Rightarrow> Inl AttributeError
      | Some f \<Rightarrow> (case theta of None \<Rightarrow> Inl TypeError | Some t \<Rightarrow> f U V t))"

subsection \<open>The empirical tail profile\<close>

text \<open>\<^verbatim>\<open>np.linspace(a, b, n)\<close> for \<open>n\<close> of at least two.\<close>

definition np_linspace :: "real \<Rightarrow> real \<Rightarrow> nat \<Rightarrow> real list" where
  "np_linspace a b n = map (\<lambda>k. a + real k * ((b - a) / real (n - 1))) [0..<n]"

text \<open>
  \<^verbatim>\<open>sum(bs)/N\<close> for an array \<open>bs\<close> of truth values and the integer \<open>N\<close>. \<open>N\<close> is the length
  of \<^verbatim>\<open>u\<close>; when it is zero the array is empty, the sum is the integer zero and the
  division raises.
\<close>

definition count_over :: "bool list \<Rightarrow> nat \<Rightarrow> error + real" where
  "count_over bs N =
     (if N = 0 then Inl ZeroDivisionError
      else Inr (real (length (filter (\<lambda>b. b) bs)) / real N))"

type_synonym profile = "real list \<times> real list \<times> real list \<times> real list"

text \<open>One pass of the loop body over the threshold \<^verbatim>\<open>base[k]\<close>.\<close>

definition empirical_step :: "real list \<Rightarrow> real list \<Rightarrow> real list \<Rightarrow> nat \<Rightarrow> profile \<Rightarrow> error + profile" where
  "empirical_step u v base k st =
     (case st of (z_left, L, z_right, R) \<Rightarrow>
       (case np_broadcast (\<and>) (map (\<lambda>x. x \<le> base ! k) u) (map (\<lambda>x. x \<le> base ! k) v) of
          Inl e \<Rightarrow> Inl e
        | Inr bl \<Rightarrow>
       (case count_over bl (length u) of
          Inl e \<Rightarrow> Inl e
        | Inr left \<Rightarrow>
       (case np_broadcast (\<and>) (map (\<lambda>x. x \<ge> base ! k) u) (map (\<lambda>x. x \<ge> base ! k) v) of
          Inl e \<Rightarrow> Inl e
        | Inr br \<Rightarrow>
       (case count_over br (length u) of
          Inl e \<Rightarrow> Inl e
        | Inr right \<Rightarrow>
            (let z_left' = (if left > 0 then z_left @ [base ! k] else z_left);
                 L' = (if left > 0 then L @ [left / (base ! k) ^ 2] else L)
             in if right > 0 then
                  (let z_right' = z_right @ [base ! k]
                   in case py_getitem z_right' k of
                        Inl e \<Rightarrow> Inl e
                      | Inr zk \<Rightarrow> Inr (z_left', L', z_right', R @ [right / (1 - zk) ^ 2]))
                else Inr (z_left', L', z_right, R)))))))"

fun empirical_loop :: "real list \<Rightarrow> real list \<Rightarrow> real list \<Rightarrow> nat list \<Rightarrow> profile \<Rightarrow> error + profile" where
  "empirical_loop u v base [] st = Inr st"
| "empirical_loop u v base (k # ks) st =
     (case empirical_step u v base k st of
        Inl e \<Rightarrow> Inl e
      | Inr st' \<Rightarrow> empirical_loop u v base ks st')"

definition compute_empirical :: "real list \<Rightarrow> real list \<Rightarrow> error + profile" where
  "compute_empirical u v =
     (let base = np_linspace 0 1 50
      in empirical_loop u v base [0..<length base] ([], [], [], []))"

subsection \<open>Family selection\<close>

text \<open>\<^verbatim>\<open>np.argmax\<close>: the first position of the largest entry.\<close>

fun argmax_from :: "real list \<Rightarrow> nat \<Rightarrow> real \<Rightarrow> nat \<Rightarrow> nat" where
  "argmax_from [] i m b = b"
| "argmax_from (x # xs) i m b = (if x > m then argmax_from xs (i + 1) x i else argmax_from xs (i + 1) m b)"

definition np_argmax :: "real list \<Rightarrow> error + nat" where
  "np_argmax xs =
     (case xs of
        [] \<Rightarrow> Inl (ValueError ''attempt to get argmax of an empty sequence'')
      | x # xs' \<Rightarrow> Inr (argmax_from xs' 1 x 0))"

text \<open>\<^verbatim>\<open>c.cdf(z, z, c.theta)/np.power(z, 2)\<close>, one entry of \<^verbatim>\<open>left_dependence\<close>.\<close>

definition left_dep :: "copula \<Rightarrow> real list \<Rightarrow> error + real list" where
  "left_dep c z =
     (case call_cdf c z z (self_theta c) of
        Inl e \<Rightarrow> Inl e
      | Inr cs \<Rightarrow> np_broadcast (/) cs (map (\<lambda>x. x ^ 2) z))"

text \<open>
  \<^verbatim>\<open>g(c.cdf(z, z, c.theta), z)\<close> with
  \<^verbatim>\<open>g = lambda c,z: np.divide(1.0-2*np.asarray(z)+c, np.power(1.0-np.asarray(z),2))\<close>,
  one entry of \<^verbatim>\<open>right_dependence\<close>.
\<close>

definition right_dep :: "copula \<Rightarrow> real list \<Rightarrow> error + real list" where
  "right_dep c z =
     (case call_cdf c z z (self_theta c) of
        Inl e \<Rightarrow> Inl e
      | Inr cs \<Rightarrow>
          (case np_broadcast (+) (map (\<lambda>x. 1 - 2 * x) z) cs of
             Inl e \<Rightarrow> Inl e
           | Inr num \<Rightarrow> np_broadcast (/) num (map (\<lambda>x. (1 - x) ^ 2) z)))"

text \<open>\<^verbatim>\<open>np.sum((E-d)**2)\<close> for the empirical list \<open>E\<close> and one theoretical profile \<open>d\<close>.\<close>

definition sq_dist :: "real list \<Rightarrow> real list \<Rightarrow> error + real" where
  "sq_dist E d =
     (case np_broadcast (-) E d of
        Inl e \<Rightarrow> Inl e
      | Inr ds \<Rightarrow> Inr (sum_list (map (\<lambda>x. x ^ 2) ds)))"

text \<open>
  \<^verbatim>\<open>select_copula\<close>. \<^verbatim>\<open>cost_L\<close> and \<^verbatim>\<open>cost_R\<close> are Python lists of three numbers each, so
  \<^verbatim>\<open>cost_L+cost_R\<close> is the list of six that appends them.
\<close>

definition select_copula :: "lib \<Rightarrow> real list \<Rightarrow> real list \<Rightarrow> error + (nat \<times> real option)" where
  "select_copula lib U V =
     (case Copula lib U V None (Some ''clayton'') False of Inl e \<Rightarrow> Inl e | Inr clayton_c \<Rightarrow>
     (case Copula lib U V None (Some ''frank'') False of Inl e \<Rightarrow> Inl e | Inr frank_c \<Rightarrow>
     (case Copula lib U V None (Some ''gumbel'') False of Inl e \<Rightarrow> Inl e | Inr gumbel_c \<Rightarrow>
       (let theta_c = [self_theta clayton_c, self_theta frank_c, self_theta gumbel_c]
        in if self_tau clayton_c \<le> 0 then Inr (2, self_theta frank_c)
           else
     (case compute_empirical U V of Inl e \<Rightarrow> Inl e | Inr (z_left, L, z_right, R) \<Rightarrow>
     (case sequence_err [left_dep clayton_c z_left, left_dep frank_c z_left,
                         left_dep gumbel_c z_left] of
        Inl e \<Rightarrow> Inl e | Inr left_dependence \<Rightarrow>
     (case sequence_err [right_dep clayton_c z_right, right_dep frank_c z_right,
                         right_dep gumbel_c z_right] of
        Inl e \<Rightarrow> Inl e | Inr right_dependence \<Rightarrow>
     (case sequence_err (map (sq_dist L) left_dependence) of Inl e \<Rightarrow> Inl e | Inr cost_L \<Rightarrow>
     (case sequence_err (map (sq_dist R) right_dependence) of Inl e \<Rightarrow> Inl e | Inr cost_R \<Rightarrow>
       (let cost_LR = cost_L @ cost_R
        in case np_argmax cost_LR of Inl e \<Rightarrow> Inl e | Inr bestC \<Rightarrow>
           (case py_getitem theta_c bestC of Inl e \<Rightarrow> Inl e | Inr paramC \<Rightarrow>
              Inr (bestC, paramC))))))))))))"

subsection \<open>A reference instance of the library\<close>

text \<open>
  Kendall's tau of a sample without ties: the number of concordant pairs minus the number
  of discordant pairs, over the number of pairs. On such a sample of at least two points
  this is the value \<^verbatim>\<open>scipy.stats.kendalltau\<close> reports. It serves only to instantiate the
  library parameter at concrete samples; the minimiser and the quadrature stay
  parameters.
\<close>

fun pair_signs :: "(real \<times> real) list \<Rightarrow> real" where
  "pair_signs [] = 0"
| "pair_signs (p # ps) =
     sum_list (map (\<lambda>q. sgn ((fst q - fst p) * (snd q - snd p))) ps) + pair_signs ps"

definition kendalltau_ref :: "real list \<Rightarrow> real list \<Rightarrow> error + real" where
  "kendalltau_ref x y =
     (if length x \<noteq> length y
      then Inl (ValueError ''All inputs to `kendalltau` must be of the same size'')
      else Inr (pair_signs (zip x y) / (real (length x) * (real (length x) - 1) / 2)))"

definition lib_ref :: "((real \<Rightarrow> real) \<Rightarrow> real \<Rightarrow> real) \<Rightarrow> ((real \<Rightarrow> real) \<Rightarrow> real \<Rightarrow> real \<Rightarrow> real) \<Rightarrow> lib" where
  "lib_ref fm q = \<lparr>kendalltau = kendalltau_ref, fmin = fm, quad = q\<rparr>"

subsection \<open>The tail profile in the specification's words\<close>

text \<open>
  The grid of 50 evenly spaced thresholds in \<open>[0, 1]\<close>, the empirical joint proportions
  \<open>P(U \<le> z, V \<le> z)\<close> and \<open>P(U \<ge> z, V \<ge> z)\<close> of a paired sample, and the profile over a
  list of thresholds: those with a positive proportion, each with its statistic. These
  follow the specification and are compared with \<open>compute_empirical\<close> below.
\<close>

definition spec_grid :: "real list" where
  "spec_grid = map (\<lambda>k. real k / 49) [0..<50]"

definition spec_lower_prob :: "real list \<Rightarrow> real list \<Rightarrow> real \<Rightarrow> real" where
  "spec_lower_prob u v z = real (length (filter (\<lambda>(x, y). x \<le> z \<and> y \<le> z) (zip u v))) / real (length u)"

definition spec_upper_prob :: "real list \<Rightarrow> real list \<Rightarrow> real \<Rightarrow> real" where
  "spec_upper_prob u v z = real (length (filter (\<lambda>(x, y). x \<ge> z \<and> y \<ge> z) (zip u v))) / real (length u)"

definition spec_tail_profile :: "real list \<Rightarrow> real list \<Rightarrow> real list \<Rightarrow> profile" where
  "spec_tail_profile u v zs =
     (filter (\<lambda>z. 0 < spec_lower_prob u v z) zs,
      map (\<lambda>z. spec_lower_prob u v z / z\<^sup>2) (filter (\<lambda>z. 0 < spec_lower_prob u v z) zs),
      filter (\<lambda>z. 0 < spec_upper_prob u v z) zs,
      map (\<lambda>z. spec_upper_prob u v z / (1 - z)\<^sup>2) (filter (\<lambda>z. 0 < spec_upper_prob u v z) zs))"

subsection \<open>The evaluators on a pair of equal arguments\<close>

text \<open>
  \<^verbatim>\<open>select_copula\<close> calls each evaluator on \<^verbatim>\<open>(z, z, theta)\<close>. These are the entries the
  bodies above compute for one pair \<open>(x, x)\<close>: Clayton for \<open>theta > 0\<close>, Frank for
  \<open>theta \<ge> 0\<close>, Gumbel for \<open>theta > 1\<close> (see \<open>cdf_clayton_diag\<close>, \<open>cdf_frank_diag\<close> and
  \<open>cdf_gumbel_diag\<close> below).
\<close>

definition clayton_pt :: "real \<Rightarrow> real \<Rightarrow> real" where
  "clayton_pt theta x =
     max (if x > 0 then (x powr (- theta) + x powr (- theta) - 1) powr (- 1 / theta) else 0) 0"

definition frank_pt :: "real \<Rightarrow> real \<Rightarrow> real" where
  "frank_pt theta x =
     (if theta = 0 then x * x
      else - 1 / theta * ln (1 + (exp (- theta * x) - 1) * (exp (- theta * x) - 1) / (exp (- theta) - 1)))"

definition gumbel_pt :: "real \<Rightarrow> real \<Rightarrow> real" where
  "gumbel_pt theta x =
     (if x = 0 then 0
      else exp (- (((- ln x) powr theta + (- ln x) powr theta) powr (1 / theta))))"

section \<open>Properties\<close>

subsection \<open>Auxiliary facts\<close>

lemma sequence_err_Inl: "sequence_err rs = Inl e \<Longrightarrow> Inl e \<in> set rs"
  by (induction rs rule: sequence_err.induct) (auto split: sum.splits)

lemma sequence_err_map_Inl: "sequence_err (map f xs) = Inl e \<Longrightarrow> \<exists>x \<in> set xs. f x = Inl e"
  by (drule sequence_err_Inl) auto

lemma np_broadcast_Inl:
  "np_broadcast f xs ys = Inl e \<Longrightarrow> e = ValueError ''operands could not be broadcast together''"
  by (auto simp: np_broadcast_def split: if_splits)

lemma frank_help_fun:
  "frank_help lib s = (\<lambda>alpha. ((1 - self_tau s) / 4 - (debye (- alpha) - 1) / alpha)\<^sup>2)"
  by (rule ext) (simp add: frank_help_def)

lemma get_parameter_clayton:
  "get_parameter lib \<lparr>self_U = U, self_V = V, self_theta = th, self_cname = Some ''clayton'',
                      self_tau = t, self_cdf = None, self_derivative = None\<rparr>
   = \<lparr>self_U = U, self_V = V,
      self_theta = Some (if t = 1 then 10000 else 2 * t / (1 - t)),
      self_cname = Some ''clayton'', self_tau = t, self_cdf = None, self_derivative = None\<rparr>"
  by (simp add: get_parameter_def)

lemma get_parameter_frank:
  "get_parameter lib \<lparr>self_U = U, self_V = V, self_theta = th, self_cname = Some ''frank'',
                      self_tau = t, self_cdf = None, self_derivative = None\<rparr>
   = \<lparr>self_U = U, self_V = V,
      self_theta = Some (- fmin lib (\<lambda>alpha. ((1 - t) / 4 - (debye (- alpha) - 1) / alpha)\<^sup>2) (- 5)),
      self_cname = Some ''frank'', self_tau = t, self_cdf = None, self_derivative = None\<rparr>"
  by (simp add: get_parameter_def frank_help_fun)

lemma get_parameter_gumbel:
  "get_parameter lib \<lparr>self_U = U, self_V = V, self_theta = th, self_cname = Some ''gumbel'',
                      self_tau = t, self_cdf = None, self_derivative = None\<rparr>
   = \<lparr>self_U = U, self_V = V,
      self_theta = Some (if t = 1 then 10000 else 1 / (1 - t)),
      self_cname = Some ''gumbel'', self_tau = t, self_cdf = None, self_derivative = None\<rparr>"
  by (simp add: get_parameter_def)

subsection \<open>Parameter estimation\<close>

text \<open>
  Claim C4. Whenever the rank correlation of the sample is computed (value \<open>t\<close>), a
  construction with the family \<^verbatim>\<open>clayton\<close> succeeds and stores
  \<open>theta = 2 * t / (1 - t)\<close>, or \<open>10000\<close> when \<open>t = 1\<close>; a construction with the family
  \<^verbatim>\<open>gumbel\<close> succeeds and stores \<open>theta = 1 / (1 - t)\<close>, or \<open>10000\<close> when \<open>t = 1\<close>. The
  \<^verbatim>\<open>theta\<close> and \<^verbatim>\<open>dev\<close> arguments play no part.
\<close>

theorem clayton_gumbel_parameter:
  assumes "kendalltau lib U V = Inr t"
  shows "(\<exists>c. Copula lib U V th (Some ''clayton'') dev = Inr c \<and> self_tau c = t
              \<and> self_theta c = Some (if t = 1 then 10000 else 2 * t / (1 - t)))
       \<and> (\<exists>c. Copula lib U V th (Some ''gumbel'') dev = Inr c \<and> self_tau c = t
              \<and> self_theta c = Some (if t = 1 then 10000 else 1 / (1 - t)))"
  using assms
  by (auto simp: Copula_def truthy_def get_parameter_def get_cdf_def get_du_def Let_def)

text \<open>
  The sample of the module's own quick test has six pairs, five concordant and one
  discordant, so \<open>tau = 2/3\<close>, \<open>theta = 4\<close> for Clayton and \<open>theta = 3\<close> for Gumbel; a sample
  of two concordant points has \<open>tau = 1\<close> and both families store the sentinel.
\<close>

theorem clayton_gumbel_parameter_witness:
  "\<forall>fm q th dev.
     kendalltau (lib_ref fm q) [1/10, 2/10, 3/10, 4/10] [2/10, 15/100, 3/10, 5/10] = Inr (2/3)
   \<and> (\<exists>c. Copula (lib_ref fm q) [1/10, 2/10, 3/10, 4/10] [2/10, 15/100, 3/10, 5/10] th
             (Some ''clayton'') dev = Inr c
          \<and> self_tau c = 2/3 \<and> self_theta c = Some 4)
   \<and> (\<exists>c. Copula (lib_ref fm q) [1/10, 2/10, 3/10, 4/10] [2/10, 15/100, 3/10, 5/10] th
             (Some ''gumbel'') dev = Inr c
          \<and> self_tau c = 2/3 \<and> self_theta c = Some 3)
   \<and> kendalltau (lib_ref fm q) [1/10, 2/10] [3/10, 4/10] = Inr 1
   \<and> (\<exists>c. Copula (lib_ref fm q) [1/10, 2/10] [3/10, 4/10] th (Some ''clayton'') dev = Inr c
          \<and> self_tau c = 1 \<and> self_theta c = Some 10000)
   \<and> (\<exists>c. Copula (lib_ref fm q) [1/10, 2/10] [3/10, 4/10] th (Some ''gumbel'') dev = Inr c
          \<and> self_tau c = 1 \<and> self_theta c = Some 10000)"
proof (intro allI)
  fix fm q th dev
  have k: "kendalltau (lib_ref fm q) [1/10, 2/10, 3/10, 4/10] [2/10, 15/100, 3/10, 5/10] = Inr (2/3)"
    by (simp add: lib_ref_def kendalltau_ref_def)
  have k1: "kendalltau (lib_ref fm q) [1/10, 2/10] [3/10, 4/10] = Inr 1"
    by (simp add: lib_ref_def kendalltau_ref_def)
  show "kendalltau (lib_ref fm q) [1/10, 2/10, 3/10, 4/10] [2/10, 15/100, 3/10, 5/10] = Inr (2/3)
   \<and> (\<exists>c. Copula (lib_ref fm q) [1/10, 2/10, 3/10, 4/10] [2/10, 15/100, 3/10, 5/10] th
             (Some ''clayton'') dev = Inr c
          \<and> self_tau c = 2/3 \<and> self_theta c = Some 4)
   \<and> (\<exists>c. Copula (lib_ref fm q) [1/10, 2/10, 3/10, 4/10] [2/10, 15/100, 3/10, 5/10] th
             (Some ''gumbel'') dev = Inr c
          \<and> self_tau c = 2/3 \<and> self_theta c = Some 3)
   \<and> kendalltau (lib_ref fm q) [1/10, 2/10] [3/10, 4/10] = Inr 1
   \<and> (\<exists>c. Copula (lib_ref fm q) [1/10, 2/10] [3/10, 4/10] th (Some ''clayton'') dev = Inr c
          \<and> self_tau c = 1 \<and> self_theta c = Some 10000)
   \<and> (\<exists>c. Copula (lib_ref fm q) [1/10, 2/10] [3/10, 4/10] th (Some ''gumbel'') dev = Inr c
          \<and> self_tau c = 1 \<and> self_theta c = Some 10000)"
    using k k1 clayton_gumbel_parameter [OF k, of th dev] clayton_gumbel_parameter [OF k1, of th dev]
    by simp
qed

text \<open>
  Claim C7. The Frank parameter is the negated result of the minimiser started at \<open>-5\<close>
  on \<^verbatim>\<open>_frank_help\<close> (see \<open>get_parameter\<close>). The objective itself is
  \<open>((1 - tau)/4 - (debye (- alpha) - 1)/alpha)\<^sup>2\<close> with the integrand \<open>debye\<close> evaluated at
  \<open>- alpha\<close>: the quadrature result \<^verbatim>\<open>debye_value\<close> does not enter it, so replacing the
  quadrature routine by any other leaves every objective value unchanged.
\<close>

theorem frank_help_ignores_quad:
  "frank_help lib self alpha
     = ((1 - self_tau self) / 4 - ((- alpha) / (exp (- alpha) - 1) - 1) / alpha)\<^sup>2
   \<and> frank_help (lib\<lparr>quad := q\<rparr>) self alpha = frank_help lib self alpha"
  by (simp add: frank_help_def debye_def Let_def)

text \<open>
  Claim C10. With a supported family name the constructor succeeds and returns the same
  instance whatever \<^verbatim>\<open>theta\<close> the caller passes. The \<^verbatim>\<open>theta\<close> it stores is the estimate
  derived from the rank correlation \<open>t\<close> of the sample: \<open>2 * t / (1 - t)\<close> for Clayton and
  \<open>1 / (1 - t)\<close> for Gumbel (the sentinel \<open>10000\<close> when \<open>t = 1\<close>), and the negated result of
  the minimiser started at \<open>-5\<close> on the Frank objective for Frank. It is what
  \<open>get_parameter\<close> computes on an instance that carries no \<^verbatim>\<open>theta\<close> at all.
\<close>

theorem constructor_theta_overwritten:
  assumes "kendalltau lib U V = Inr t" and "cn \<in> {''clayton'', ''frank'', ''gumbel''}"
  shows "\<exists>c. Copula lib U V th (Some cn) dev = Inr c
            \<and> Copula lib U V th' (Some cn) dev = Inr c
            \<and> self_tau c = t
            \<and> self_theta c = Some
                 (if cn = ''clayton'' then (if t = 1 then 10000 else 2 * t / (1 - t))
                  else if cn = ''frank'' then
                    - fmin lib (\<lambda>alpha. ((1 - t) / 4 - (debye (- alpha) - 1) / alpha)\<^sup>2) (- 5)
                  else (if t = 1 then 10000 else 1 / (1 - t)))
            \<and> self_theta c = self_theta (get_parameter lib
                  \<lparr>self_U = U, self_V = V, self_theta = None, self_cname = Some cn,
                   self_tau = t, self_cdf = None, self_derivative = None\<rparr>)"
proof -
  from assms(2) consider "cn = ''clayton''" | "cn = ''frank''" | "cn = ''gumbel''"
    by auto
  then show ?thesis
  proof cases
    case 1
    then show ?thesis
      by (simp add: Copula_def assms(1) truthy_def get_parameter_clayton get_cdf_def get_du_def)
  next
    case 2
    then show ?thesis
      by (simp add: Copula_def assms(1) truthy_def get_parameter_frank get_cdf_def get_du_def)
  next
    case 3
    then show ?thesis
      by (simp add: Copula_def assms(1) truthy_def get_parameter_gumbel get_cdf_def get_du_def)
  qed
qed

theorem constructor_theta_overwritten_witness:
  "\<forall>fm q.
     kendalltau (lib_ref fm q) [1/10, 2/10, 3/10, 4/10] [2/10, 15/100, 3/10, 5/10] = Inr (2/3)
   \<and> ''frank'' \<in> {''clayton'', ''frank'', ''gumbel''}
   \<and> (\<exists>c. Copula (lib_ref fm q) [1/10, 2/10, 3/10, 4/10] [2/10, 15/100, 3/10, 5/10]
             (Some 7) (Some ''frank'') True = Inr c
          \<and> Copula (lib_ref fm q) [1/10, 2/10, 3/10, 4/10] [2/10, 15/100, 3/10, 5/10]
             None (Some ''frank'') True = Inr c
          \<and> self_tau c = 2/3
          \<and> self_theta c
             = Some (- fm (\<lambda>alpha. ((1 - 2/3) / 4 - (debye (- alpha) - 1) / alpha)\<^sup>2) (- 5)))
   \<and> ''clayton'' \<in> {''clayton'', ''frank'', ''gumbel''}
   \<and> (\<exists>c. Copula (lib_ref fm q) [1/10, 2/10, 3/10, 4/10] [2/10, 15/100, 3/10, 5/10]
             (Some 7) (Some ''clayton'') False = Inr c
          \<and> Copula (lib_ref fm q) [1/10, 2/10, 3/10, 4/10] [2/10, 15/100, 3/10, 5/10]
             (Some 0) (Some ''clayton'') False = Inr c
          \<and> self_tau c = 2/3 \<and> self_theta c = Some 4)"
proof (intro allI)
  fix fm q
  let ?L = "lib_ref fm q"
  let ?U = "[1/10, 2/10, 3/10, 4/10 :: real]"
  let ?V = "[2/10, 15/100, 3/10, 5/10 :: real]"
  have k: "kendalltau ?L ?U ?V = Inr (2/3)"
    by (simp add: lib_ref_def kendalltau_ref_def)
  have mf: "''frank'' \<in> {''clayton'', ''frank'', ''gumbel''}"
    by simp
  have mc: "''clayton'' \<in> {''clayton'', ''frank'', ''gumbel''}"
    by simp
  have f: "fmin ?L = fm"
    by (simp add: lib_ref_def)
  from constructor_theta_overwritten [OF k mf, of "Some 7" True None]
  obtain c where c: "Copula ?L ?U ?V (Some 7) (Some ''frank'') True = Inr c"
      "Copula ?L ?U ?V None (Some ''frank'') True = Inr c" "self_tau c = 2/3"
      "self_theta c = Some (- fm (\<lambda>alpha. ((1 - 2/3) / 4 - (debye (- alpha) - 1) / alpha)\<^sup>2) (- 5))"
    by (auto simp: f)
  from constructor_theta_overwritten [OF k mc, of "Some 7" False "Some 0"]
  obtain d where d: "Copula ?L ?U ?V (Some 7) (Some ''clayton'') False = Inr d"
      "Copula ?L ?U ?V (Some 0) (Some ''clayton'') False = Inr d" "self_tau d = 2/3"
      "self_theta d = Some 4"
    by auto
  show "kendalltau ?L ?U ?V = Inr (2/3)
   \<and> ''frank'' \<in> {''clayton'', ''frank'', ''gumbel''}
   \<and> (\<exists>c. Copula ?L ?U ?V (Some 7) (Some ''frank'') True = Inr c
          \<and> Copula ?L ?U ?V None (Some ''frank'') True = Inr c
          \<and> self_tau c = 2/3
          \<and> self_theta c
             = Some (- fm (\<lambda>alpha. ((1 - 2/3) / 4 - (debye (- alpha) - 1) / alpha)\<^sup>2) (- 5)))
   \<and> ''clayton'' \<in> {''clayton'', ''frank'', ''gumbel''}
   \<and> (\<exists>c. Copula ?L ?U ?V (Some 7) (Some ''clayton'') False = Inr c
          \<and> Copula ?L ?U ?V (Some 0) (Some ''clayton'') False = Inr c
          \<and> self_tau c = 2/3 \<and> self_theta c = Some 4)"
    using k mf mc c d by blast
qed

subsection \<open>The cdf evaluators\<close>

text \<open>
  Claim C5. On two sequences of equal length, each family's evaluator at its
  independence parameter (Clayton 0, Frank 0, Gumbel 1) returns the elementwise product.
\<close>

theorem cdf_independence:
  assumes "length U = length V"
  shows "cdf_clayton U V 0 = Inr (map2 (*) U V)
       \<and> cdf_frank U V 0 = Inr (map2 (*) U V)
       \<and> cdf_gumbel U V 1 = Inr (map2 (*) U V)"
  using assms
  by (simp add: cdf_clayton_def cdf_frank_def cdf_gumbel_def np_multiply_def np_broadcast_def)

theorem cdf_independence_witness:
  "length [1/10, 1/2 :: real] = length [1/5, 1/2 :: real]
   \<and> cdf_clayton [1/10, 1/2] [1/5, 1/2] 0 = Inr [1/50, 1/4]
   \<and> cdf_frank [1/10, 1/2] [1/5, 1/2] 0 = Inr [1/50, 1/4]
   \<and> cdf_gumbel [1/10, 1/2] [1/5, 1/2] 1 = Inr [1/50, 1/4]"
  using cdf_independence [of "[1/10, 1/2]" "[1/5, 1/2]"] by simp

text \<open>
  Claim C6. Outside the domain (Clayton and Frank below 0, Gumbel below 1) the evaluator
  raises its domain error whatever the two sequences are, so before anything is computed
  from them; inside the domain the outcome is never that error.
\<close>

theorem cdf_domain_error:
  "(theta < 0 \<longrightarrow>
      cdf_clayton U V theta = Inl (ValueError ''Theta cannot be than 0 for clayton'')
    \<and> cdf_frank U V theta = Inl (ValueError ''Theta cannot be less than 0 for Frank''))
 \<and> (theta < 1 \<longrightarrow>
      cdf_gumbel U V theta = Inl (ValueError ''Theta cannot be less than 1 for Gumbel''))
 \<and> (0 \<le> theta \<longrightarrow>
      cdf_clayton U V theta \<noteq> Inl (ValueError ''Theta cannot be than 0 for clayton'')
    \<and> cdf_frank U V theta \<noteq> Inl (ValueError ''Theta cannot be less than 0 for Frank''))
 \<and> (1 \<le> theta \<longrightarrow>
      cdf_gumbel U V theta \<noteq> Inl (ValueError ''Theta cannot be less than 1 for Gumbel''))"
proof (intro conjI impI)
  assume "theta < 0"
  then show "cdf_clayton U V theta = Inl (ValueError ''Theta cannot be than 0 for clayton'')"
    by (simp add: cdf_clayton_def)
  from \<open>theta < 0\<close>
  show "cdf_frank U V theta = Inl (ValueError ''Theta cannot be less than 0 for Frank'')"
    by (simp add: cdf_frank_def)
next
  assume "theta < 1"
  then show "cdf_gumbel U V theta = Inl (ValueError ''Theta cannot be less than 1 for Gumbel'')"
    by (simp add: cdf_gumbel_def)
next
  assume d: "0 \<le> theta"
  show "cdf_clayton U V theta \<noteq> Inl (ValueError ''Theta cannot be than 0 for clayton'')"
  proof
    assume a: "cdf_clayton U V theta = Inl (ValueError ''Theta cannot be than 0 for clayton'')"
    show False
    proof (cases "theta = 0")
      case True
      with a show False
        by (auto simp: cdf_clayton_def np_multiply_def dest: np_broadcast_Inl)
    next
      case False
      with a d show False
        by (auto simp: cdf_clayton_def py_getitem_def split: sum.splits if_splits
              dest!: sequence_err_map_Inl)
    qed
  qed
  show "cdf_frank U V theta \<noteq> Inl (ValueError ''Theta cannot be less than 0 for Frank'')"
    using d
    by (auto simp: cdf_frank_def np_multiply_def Let_def split: sum.splits dest: np_broadcast_Inl)
next
  assume d: "1 \<le> theta"
  show "cdf_gumbel U V theta \<noteq> Inl (ValueError ''Theta cannot be less than 1 for Gumbel'')"
  proof
    assume a: "cdf_gumbel U V theta = Inl (ValueError ''Theta cannot be less than 1 for Gumbel'')"
    show False
    proof (cases "theta = 1")
      case True
      with a show False
        by (auto simp: cdf_gumbel_def np_multiply_def dest: np_broadcast_Inl)
    next
      case False
      with a d show False
        by (auto simp: cdf_gumbel_def py_getitem_def Let_def split: sum.splits if_splits
              dest!: sequence_err_map_Inl)
    qed
  qed
qed

theorem cdf_domain_error_witness:
  "(- 1 :: real) < 0
   \<and> cdf_clayton [1/10] [1/10] (- 1) = Inl (ValueError ''Theta cannot be than 0 for clayton'')
   \<and> cdf_frank [1/10] [1/10] (- 1) = Inl (ValueError ''Theta cannot be less than 0 for Frank'')
   \<and> (1/2 :: real) < 1
   \<and> cdf_gumbel [1/10] [1/10] (1/2) = Inl (ValueError ''Theta cannot be less than 1 for Gumbel'')
   \<and> (0 :: real) \<le> 2
   \<and> cdf_clayton [1/10] [1/10] 2 \<noteq> Inl (ValueError ''Theta cannot be than 0 for clayton'')
   \<and> cdf_frank [1/10] [1/10] 2 \<noteq> Inl (ValueError ''Theta cannot be less than 0 for Frank'')
   \<and> (1 :: real) \<le> 2
   \<and> cdf_gumbel [1/10] [1/10] 2 \<noteq> Inl (ValueError ''Theta cannot be less than 1 for Gumbel'')"
  using cdf_domain_error [of "- 1" "[1/10]" "[1/10]"] cdf_domain_error [of "1/2" "[1/10]" "[1/10]"]
    cdf_domain_error [of 2 "[1/10]" "[1/10]"]
  by simp

subsection \<open>The empirical tail profile\<close>

lemma np_linspace_spec_grid: "np_linspace 0 1 50 = spec_grid"
  by (simp add: np_linspace_def spec_grid_def)

lemma length_spec_grid: "length spec_grid = 50"
  by (simp add: spec_grid_def)

lemma nth_spec_grid: "k < 50 \<Longrightarrow> spec_grid ! k = real k / 49"
  by (simp add: spec_grid_def)

lemma sorted_spec_grid: "sorted spec_grid"
  by (simp add: sorted_iff_nth_mono length_spec_grid nth_spec_grid divide_right_mono)


lemma count_true_map2:
  assumes "length u = length v"
  shows "length (filter (\<lambda>b. b) (map2 (\<and>) (map P u) (map Q v)))
     = length (filter (\<lambda>(x, y). P x \<and> Q y) (zip u v))"
proof -
  have "map2 (\<and>) (map P u) (map Q v) = map (\<lambda>(x, y). P x \<and> Q y) (zip u v)"
    by (simp add: zip_map_map case_prod_unfold)
  then show ?thesis
    by (simp add: filter_map comp_def)
qed

lemma count_over_lower:
  assumes "length u = length v" and "u \<noteq> []"
  shows "count_over (map2 (\<and>) (map (\<lambda>x. x \<le> z) u) (map (\<lambda>x. x \<le> z) v)) (length u)
         = Inr (spec_lower_prob u v z)"
proof -
  have "length (filter (\<lambda>b. b) (map2 (\<and>) (map (\<lambda>x. x \<le> z) u) (map (\<lambda>x. x \<le> z) v)))
        = length (filter (\<lambda>(x, y). x \<le> z \<and> y \<le> z) (zip u v))"
    by (rule count_true_map2 [OF assms(1)])
  moreover have "length u \<noteq> 0"
    using assms(2) by simp
  ultimately show ?thesis
    unfolding count_over_def spec_lower_prob_def by (simp only: if_False)
qed

lemma count_over_upper:
  assumes "length u = length v" and "u \<noteq> []"
  shows "count_over (map2 (\<and>) (map (\<lambda>x. x \<ge> z) u) (map (\<lambda>x. x \<ge> z) v)) (length u)
         = Inr (spec_upper_prob u v z)"
proof -
  have "length (filter (\<lambda>b. b) (map2 (\<and>) (map (\<lambda>x. x \<ge> z) u) (map (\<lambda>x. x \<ge> z) v)))
        = length (filter (\<lambda>(x, y). x \<ge> z \<and> y \<ge> z) (zip u v))"
    by (rule count_true_map2 [OF assms(1)])
  moreover have "length u \<noteq> 0"
    using assms(2) by simp
  ultimately show ?thesis
    unfolding count_over_def spec_upper_prob_def by (simp only: if_False)
qed

lemma length_filter_mono:
  "(\<And>x. x \<in> set xs \<Longrightarrow> P x \<Longrightarrow> Q x) \<Longrightarrow> length (filter P xs) \<le> length (filter Q xs)"
  by (induction xs) auto

lemma upper_prob_antitone:
  assumes "z \<le> z'" and "0 < spec_upper_prob u v z'"
  shows "0 < spec_upper_prob u v z"
proof -
  have "length (filter (\<lambda>(x, y). x \<ge> z' \<and> y \<ge> z') (zip u v))
        \<le> length (filter (\<lambda>(x, y). x \<ge> z \<and> y \<ge> z) (zip u v))"
    using assms(1) by (intro length_filter_mono) auto
  then have "spec_upper_prob u v z' \<le> spec_upper_prob u v z"
    unfolding spec_upper_prob_def by (intro divide_right_mono) simp_all
  with assms(2) show ?thesis
    by simp
qed


lemma sorted_take_le_nth:
  assumes "sorted base" and "k < length base" and "z \<in> set (take k base)"
  shows "z \<le> base ! k"
proof -
  from assms(3) obtain j where "j < k" "z = base ! j"
    using assms(2) by (auto simp: in_set_conv_nth)
  with assms(1,2) show ?thesis
    by (simp add: sorted_iff_nth_mono)
qed

lemma filter_upper_take:
  assumes "sorted base" and "k < length base" and "0 < spec_upper_prob u v (base ! k)"
  shows "filter (\<lambda>z. 0 < spec_upper_prob u v z) (take k base) = take k base"
proof -
  have "\<And>z. z \<in> set (take k base) \<Longrightarrow> 0 < spec_upper_prob u v z"
    using sorted_take_le_nth [OF assms(1,2)] upper_prob_antitone [OF _ assms(3)] by blast
  then show ?thesis
    by (simp add: filter_id_conv)
qed

lemma empirical_step_profile:
  assumes "length u = length v" and "u \<noteq> []" and "sorted base" and "k < length base"
  shows "empirical_step u v base k (spec_tail_profile u v (take k base))
         = Inr (spec_tail_profile u v (take (Suc k) base))"
proof -
  have bl: "np_broadcast (\<and>) (map (\<lambda>x. x \<le> base ! k) u) (map (\<lambda>x. x \<le> base ! k) v)
            = Inr (map2 (\<and>) (map (\<lambda>x. x \<le> base ! k) u) (map (\<lambda>x. x \<le> base ! k) v))"
    using assms(1) by (simp add: np_broadcast_def)
  have br: "np_broadcast (\<and>) (map (\<lambda>x. x \<ge> base ! k) u) (map (\<lambda>x. x \<ge> base ! k) v)
            = Inr (map2 (\<and>) (map (\<lambda>x. x \<ge> base ! k) u) (map (\<lambda>x. x \<ge> base ! k) v))"
    using assms(1) by (simp add: np_broadcast_def)
  have tk: "take (Suc k) base = take k base @ [base ! k]"
    using assms(4) by (rule take_Suc_conv_app_nth)
  have gi: "py_getitem (take k base @ [base ! k]) k = Inr (base ! k)"
    using assms(4) by (simp add: py_getitem_def nth_append)
  show ?thesis
  proof (cases "0 < spec_upper_prob u v (base ! k)")
    case True
    note fu = filter_upper_take [OF assms(3,4) True]
    from True show ?thesis
      unfolding empirical_step_def spec_tail_profile_def
      by (simp add: bl br count_over_lower [OF assms(1,2)] count_over_upper [OF assms(1,2)]
            tk fu gi Let_def)
  next
    case False
    then show ?thesis
      unfolding empirical_step_def spec_tail_profile_def
      by (simp add: bl br count_over_lower [OF assms(1,2)] count_over_upper [OF assms(1,2)]
            tk Let_def)
  qed
qed

lemma empirical_loop_profile:
  assumes "length u = length v" and "u \<noteq> []" and "sorted base" and "k \<le> length base"
  shows "empirical_loop u v base [k..<length base] (spec_tail_profile u v (take k base))
         = Inr (spec_tail_profile u v base)"
  using assms(4)
proof (induction "length base - k" arbitrary: k)
  case 0
  then show ?case by simp
next
  case (Suc n)
  then have lt: "k < length base" by simp
  have "empirical_loop u v base [k..<length base] (spec_tail_profile u v (take k base))
        = empirical_loop u v base [Suc k..<length base] (spec_tail_profile u v (take (Suc k) base))"
    using lt by (simp add: upt_conv_Cons empirical_step_profile [OF assms(1-3) lt])
  also have "\<dots> = Inr (spec_tail_profile u v base)"
    using Suc lt by (intro Suc.hyps(1)) simp_all
  finally show ?case .
qed

text \<open>
  Claim C8. On two sequences of equal, positive length \<^verbatim>\<open>compute_empirical\<close> returns the
  profile over the grid of 50 evenly spaced thresholds \<open>k/49\<close>: the thresholds with a
  positive lower joint proportion, the statistic \<open>P(U \<le> z, V \<le> z) / z\<^sup>2\<close> at each of
  them in the same order, the thresholds with a positive upper joint proportion, and the
  statistic \<open>P(U \<ge> z, V \<ge> z) / (1 - z)\<^sup>2\<close> at each of them in the same order. The
  lookup \<^verbatim>\<open>z_right[k]\<close> always succeeds and yields \<^verbatim>\<open>base[k]\<close>, because the upper
  proportion does not increase along the grid. At the threshold \<open>0\<close> (lower tail) and at
  the threshold \<open>1\<close> (upper tail) the statistic is a quotient by zero, which numpy
  evaluates to \<^verbatim>\<open>inf\<close>; both sides of the equation carry the same quotient there.
\<close>

theorem compute_empirical_profile:
  assumes "length u = length v" and "u \<noteq> []"
  shows "compute_empirical u v = Inr (spec_tail_profile u v spec_grid)"
  using empirical_loop_profile [OF assms sorted_spec_grid, of 0]
  by (simp add: compute_empirical_def np_linspace_spec_grid Let_def spec_tail_profile_def)


theorem compute_empirical_profile_witness:
  "length [1/10, 2/10, 3/10, 4/10 :: real] = length [2/10, 15/100, 3/10, 5/10 :: real]
   \<and> [1/10, 2/10, 3/10, 4/10 :: real] \<noteq> []
   \<and> compute_empirical [1/10, 2/10, 3/10, 4/10] [2/10, 15/100, 3/10, 5/10]
       = Inr (spec_tail_profile [1/10, 2/10, 3/10, 4/10] [2/10, 15/100, 3/10, 5/10] spec_grid)"
  using compute_empirical_profile [of "[1/10, 2/10, 3/10, 4/10]" "[2/10, 15/100, 3/10, 5/10]"]
  by simp

subsection \<open>Family selection\<close>

text \<open>The evaluators on \<open>(z, z)\<close>, and the profiles and costs \<^verbatim>\<open>select_copula\<close> builds from them.\<close>

lemma sequence_err_map_Inr: "sequence_err (map (\<lambda>i. Inr (f i)) xs) = Inr (map f xs)"
  by (induction xs) simp_all

lemma np_power_pos: "0 < x \<Longrightarrow> y \<noteq> 0 \<Longrightarrow> np_power (Finite x) y = Finite (x powr y)"
  by (simp add: np_power_def)

lemma np_power_nonneg: "0 \<le> x \<Longrightarrow> 0 < y \<Longrightarrow> np_power (Finite x) y = Finite (x powr y)"
  by (simp add: np_power_def)

lemma powr_minus_ge_one:
  fixes x theta :: real
  assumes "0 < x" and "x \<le> 1" and "0 < theta"
  shows "1 \<le> x powr (- theta)"
proof -
  have "x powr theta \<le> 1"
    by (rule powr_le1) (simp_all add: assms less_imp_le)
  moreover have "0 < x powr theta"
    using assms(1) by simp
  ultimately have "1 \<le> inverse (x powr theta)"
    by (rule one_le_inverse [rotated])
  then show ?thesis
    by (simp add: powr_minus)
qed

lemma clayton_entry:
  assumes "0 < theta" and "0 \<le> x" and "x \<le> 1"
  shows "np_value (py_max0 (if x > 0 then
            np_power (np_sub (np_add (np_power (Finite x) (- theta)) (np_power (Finite x) (- theta)))
                             (Finite 1)) (- 1 / theta)
          else Finite 0)) = clayton_pt theta x"
proof (cases "0 < x")
  case True
  have "1 \<le> x powr (- theta)"
    using True assms by (intro powr_minus_ge_one) simp_all
  then have s: "0 < x powr (- theta) + x powr (- theta) - 1"
    by simp
  show ?thesis
    using True assms(1) s
    by (simp add: np_power_pos np_sub_def clayton_pt_def)
next
  case False
  then show ?thesis
    by (simp add: clayton_pt_def)
qed

lemma cdf_clayton_diag:
  assumes "0 < theta" and "\<And>x. x \<in> set z \<Longrightarrow> 0 \<le> x \<and> x \<le> 1"
  shows "cdf_clayton z z theta = Inr (map (clayton_pt theta) z)"
proof -
  define G where "G = (\<lambda>x. if x > 0 then
            np_power (np_sub (np_add (np_power (Finite x) (- theta)) (np_power (Finite x) (- theta)))
                             (Finite 1)) (- 1 / theta)
          else Finite 0)"
  have "map (\<lambda>i. if z ! i > 0 then
                  (case py_getitem z i of
                     Inl e \<Rightarrow> Inl e
                   | Inr v \<Rightarrow>
                       Inr (np_power (np_sub (np_add (np_power (Finite (z ! i)) (- theta))
                                                     (np_power (Finite v) (- theta)))
                                             (Finite 1))
                                     (- 1 / theta)))
                else Inr (Finite 0)) [0..<length z]
      = map (\<lambda>i. Inr (G (z ! i))) [0..<length z]"
    by (rule map_cong) (simp_all add: py_getitem_def G_def)
  then have seq: "sequence_err (map (\<lambda>i. if z ! i > 0 then
                  (case py_getitem z i of
                     Inl e \<Rightarrow> Inl e
                   | Inr v \<Rightarrow>
                       Inr (np_power (np_sub (np_add (np_power (Finite (z ! i)) (- theta))
                                                     (np_power (Finite v) (- theta)))
                                             (Finite 1))
                                     (- 1 / theta)))
                else Inr (Finite 0)) [0..<length z])
      = Inr (map (\<lambda>i. G (z ! i)) [0..<length z])"
    by (simp only: sequence_err_map_Inr)
  have "map (\<lambda>x. np_value (py_max0 x)) (map (\<lambda>i. G (z ! i)) [0..<length z])
        = map (clayton_pt theta) z"
  proof (rule nth_equalityI)
    show "length (map (\<lambda>x. np_value (py_max0 x)) (map (\<lambda>i. G (z ! i)) [0..<length z]))
          = length (map (clayton_pt theta) z)"
      by simp
  next
    fix i
    assume "i < length (map (\<lambda>x. np_value (py_max0 x)) (map (\<lambda>i. G (z ! i)) [0..<length z]))"
    then have i: "i < length z"
      by simp
    then have "0 \<le> z ! i \<and> z ! i \<le> 1"
      by (intro assms(2)) simp
    then have "np_value (py_max0 (G (z ! i))) = clayton_pt theta (z ! i)"
      unfolding G_def using clayton_entry [OF assms(1)] by blast
    with i show "map (\<lambda>x. np_value (py_max0 x)) (map (\<lambda>i. G (z ! i)) [0..<length z]) ! i
                 = map (clayton_pt theta) z ! i"
      by simp
  qed
  with seq show ?thesis
    using assms(1) by (simp add: cdf_clayton_def)
qed

lemma map2_self: "map2 f z z = map (\<lambda>x. f x x) z"
  by (induction z) simp_all

lemma map2_diag: "map2 f (map g z) (map h z) = map (\<lambda>x. f (g x) (h x)) z"
  by (induction z) simp_all

lemma cdf_frank_diag:
  assumes "0 \<le> theta"
  shows "cdf_frank z z theta = Inr (map (frank_pt theta) z)"
proof (cases "theta = 0")
  case True
  then show ?thesis
    by (simp add: cdf_frank_def np_multiply_def np_broadcast_def frank_pt_def map2_self)
next
  case False
  with assms show ?thesis
    by (simp add: cdf_frank_def np_multiply_def np_broadcast_def frank_pt_def map2_diag Let_def)
qed

lemma gumbel_entry:
  assumes "1 < theta" and "0 \<le> x" and "x \<le> 1"
  shows "np_value (if x = 0 then Finite 0
          else np_exp (np_neg (np_power (np_add (np_power (np_neg (np_log x)) theta)
                                                (np_power (np_neg (np_log x)) theta))
                                        (1 / theta))))
         = gumbel_pt theta x"
proof (cases "x = 0")
  case True
  then show ?thesis
    by (simp add: gumbel_pt_def)
next
  case False
  with assms have pos: "0 < x" by simp
  have nn: "0 \<le> - ln x"
    using pos assms(3) by simp
  have th: "0 < theta" "0 < 1 / theta"
    using assms(1) by simp_all
  have "np_power (np_neg (np_log x)) theta = Finite ((- ln x) powr theta)"
    using pos by (simp add: np_log_def np_power_nonneg [OF nn th(1)])
  moreover have "0 \<le> (- ln x) powr theta + (- ln x) powr theta"
    by simp
  ultimately show ?thesis
    using False by (simp add: np_power_nonneg [OF _ th(2)] gumbel_pt_def)
qed

lemma cdf_gumbel_diag:
  assumes "1 < theta" and "\<And>x. x \<in> set z \<Longrightarrow> 0 \<le> x \<and> x \<le> 1"
  shows "cdf_gumbel z z theta = Inr (map (gumbel_pt theta) z)"
proof -
  define G where "G = (\<lambda>x. if x = 0 then Finite 0
          else np_exp (np_neg (np_power (np_add (np_power (np_neg (np_log x)) theta)
                                                (np_power (np_neg (np_log x)) theta))
                                        (1 / theta))))"
  have "map (\<lambda>i.
            if z ! i = 0 then Inr (Finite 0)
            else
              (case py_getitem z i of
                 Inl e \<Rightarrow> Inl e
               | Inr v \<Rightarrow>
                   (let h = np_add (np_power (np_neg (np_log (z ! i))) theta)
                                   (np_power (np_neg (np_log v)) theta);
                        h' = np_neg (np_power h (1 / theta))
                    in Inr (np_exp h'))))
          [0..<length z]
      = map (\<lambda>i. Inr (G (z ! i))) [0..<length z]"
    by (rule map_cong) (simp_all add: py_getitem_def G_def Let_def)
  then have seq: "sequence_err (map (\<lambda>i.
            if z ! i = 0 then Inr (Finite 0)
            else
              (case py_getitem z i of
                 Inl e \<Rightarrow> Inl e
               | Inr v \<Rightarrow>
                   (let h = np_add (np_power (np_neg (np_log (z ! i))) theta)
                                   (np_power (np_neg (np_log v)) theta);
                        h' = np_neg (np_power h (1 / theta))
                    in Inr (np_exp h'))))
          [0..<length z])
      = Inr (map (\<lambda>i. G (z ! i)) [0..<length z])"
    by (simp only: sequence_err_map_Inr)
  have "map np_value (map (\<lambda>i. G (z ! i)) [0..<length z]) = map (gumbel_pt theta) z"
  proof (rule nth_equalityI)
    show "length (map np_value (map (\<lambda>i. G (z ! i)) [0..<length z]))
          = length (map (gumbel_pt theta) z)"
      by simp
  next
    fix i
    assume "i < length (map np_value (map (\<lambda>i. G (z ! i)) [0..<length z]))"
    then have i: "i < length z"
      by simp
    then have "0 \<le> z ! i \<and> z ! i \<le> 1"
      by (intro assms(2)) simp
    then have "np_value (G (z ! i)) = gumbel_pt theta (z ! i)"
      unfolding G_def using gumbel_entry [OF assms(1)] by blast
    with i show "map np_value (map (\<lambda>i. G (z ! i)) [0..<length z]) ! i
                 = map (gumbel_pt theta) z ! i"
      by simp
  qed
  with seq show ?thesis
    using assms(1) by (simp add: cdf_gumbel_def)
qed

lemma np_broadcast_maps:
  "np_broadcast f (map g z) (map h z) = Inr (map (\<lambda>x. f (g x) (h x)) z)"
  by (simp add: np_broadcast_def map2_diag)

lemma left_dep_diag:
  assumes "self_cdf c = Some f" and "self_theta c = Some theta"
    and "f z z theta = Inr (map pt z)"
  shows "left_dep c z = Inr (map (\<lambda>x. pt x / x\<^sup>2) z)"
  using assms by (simp add: left_dep_def call_cdf_def np_broadcast_maps)

lemma right_dep_diag:
  assumes "self_cdf c = Some f" and "self_theta c = Some theta"
    and "f z z theta = Inr (map pt z)"
  shows "right_dep c z = Inr (map (\<lambda>x. (1 - 2 * x + pt x) / (1 - x)\<^sup>2) z)"
  using assms by (simp add: right_dep_def call_cdf_def np_broadcast_maps)

lemma sq_dist_maps:
  "sq_dist (map e z) (map d z) = Inr (sum_list (map (\<lambda>x. (e x - d x)\<^sup>2) z))"
  by (simp add: sq_dist_def np_broadcast_maps comp_def)

lemma sum_list_sq_nonneg: "0 \<le> sum_list (map (\<lambda>x. (g x :: real)\<^sup>2) z)"
  by (rule sum_list_nonneg) auto

lemma sum_list_sq_ge:
  assumes "x \<in> set z"
  shows "(g x :: real)\<^sup>2 \<le> sum_list (map (\<lambda>x. (g x)\<^sup>2) z)"
  using assms
proof (induction z)
  case Nil
  then show ?case by simp
next
  case (Cons y z)
  show ?case
  proof (cases "x = y")
    case True
    then show ?thesis
      using sum_list_sq_nonneg [of g z] by simp
  next
    case False
    with Cons have "(g x)\<^sup>2 \<le> sum_list (map (\<lambda>x. (g x)\<^sup>2) z)"
      by simp
    then show ?thesis
      by (simp add: add_increasing)
  qed
qed

lemma np_argmax_six:
  assumes "d > a" and "d > b" and "d > c"
  shows "\<exists>i. np_argmax [a, b, c, d, e, f :: real] = Inr i \<and> 3 \<le> i"
  using assms by (auto simp: np_argmax_def)

lemma frank_pt_bounds:
  assumes "0 \<le> theta" and "0 \<le> x" and "x \<le> 1"
  shows "0 \<le> frank_pt theta x \<and> frank_pt theta x \<le> 1"
proof (cases "theta = 0")
  case True
  with assms show ?thesis
    by (simp add: frank_pt_def mult_le_one)
next
  case False
  with assms have pos: "0 < theta" by simp
  define a where "a = exp (- theta * x) - 1"
  define d where "d = exp (- theta) - 1"
  have d_neg: "d < 0"
    using pos by (simp add: d_def)
  have "- theta \<le> - theta * x"
    using pos assms(3) by (simp add: mult_left_le)
  then have d_le_a: "d \<le> a"
    by (simp add: a_def d_def)
  have "- theta * x \<le> 0"
    using pos assms(2) by (simp add: mult_nonneg_nonneg)
  then have a_le: "a \<le> 0"
    by (simp add: a_def)
  have "(- a) * (- a) \<le> (- d) * (- d)"
    using d_le_a a_le by (intro mult_mono) simp_all
  then have "a * a \<le> d * d"
    by simp
  then have "d * d / d \<le> a * a / d"
    using d_neg by (intro divide_right_mono_neg) simp_all
  then have lo: "d \<le> a * a / d"
    using d_neg by simp
  have hi: "a * a / d \<le> 0"
    using d_neg by (simp add: divide_nonneg_neg)
  define t where "t = 1 + a * a / d"
  have t_lo: "exp (- theta) \<le> t"
    using lo by (simp add: t_def d_def)
  have t_hi: "t \<le> 1"
    using hi by (simp add: t_def)
  have t_pos: "0 < t"
    using t_lo exp_gt_zero [of "- theta"] by linarith
  have "ln (exp (- theta)) \<le> ln t"
    using t_lo t_pos by (subst ln_le_cancel_iff) simp_all
  then have ln_lo: "- theta \<le> ln t"
    by simp
  have ln_hi: "ln t \<le> 0"
    using t_hi t_pos by simp
  have eq: "frank_pt theta x = - (ln t) / theta"
    using False by (simp add: frank_pt_def t_def a_def d_def)
  have "0 \<le> - (ln t) / theta"
    using ln_hi pos by (intro divide_nonneg_pos) simp_all
  moreover have "- (ln t) / theta \<le> 1"
  proof -
    have "- (ln t) \<le> 1 * theta"
      using ln_lo by simp
    with pos show ?thesis
      by (subst pos_divide_le_eq)
  qed
  ultimately show ?thesis
    by (simp add: eq)
qed

lemma gumbel_pt_bounds: "0 \<le> gumbel_pt theta x \<and> gumbel_pt theta x \<le> 1"
  by (simp add: gumbel_pt_def)

lemma clayton_pt_one:
  assumes "0 < x" and "x < 2"
  shows "clayton_pt 1 x = x / (2 - x)"
proof -
  have inv: "x powr (- 1) = 1 / x"
    using assms(1) by (simp add: powr_minus_divide)
  have pos: "0 < 1 / x + 1 / x - 1"
    using assms by (simp add: field_simps)
  have "(1 / x + 1 / x - 1) powr (- 1) = 1 / (1 / x + 1 / x - 1)"
    using pos by (simp add: powr_minus_divide)
  also have "\<dots> = x / (2 - x)"
    using assms by (simp add: field_simps)
  finally have "(1 / x + 1 / x - 1) powr (- 1) = x / (2 - x)" .
  moreover have "0 \<le> x / (2 - x)"
    using assms by simp
  ultimately show ?thesis
    using assms(1) by (simp add: clayton_pt_def inv)
qed

lemma Copula_clayton:
  assumes "kendalltau lib U V = Inr t"
  shows "Copula lib U V th (Some ''clayton'') False
         = Inr \<lparr>self_U = U, self_V = V,
                self_theta = Some (if t = 1 then 10000 else 2 * t / (1 - t)),
                self_cname = Some ''clayton'', self_tau = t,
                self_cdf = Some cdf_clayton, self_derivative = None\<rparr>"
  by (simp add: Copula_def assms truthy_def get_parameter_clayton get_cdf_def)

lemma Copula_frank:
  assumes "kendalltau lib U V = Inr t"
  shows "Copula lib U V th (Some ''frank'') False
         = Inr \<lparr>self_U = U, self_V = V,
                self_theta = Some (- fmin lib (\<lambda>alpha. ((1 - t) / 4 - (debye (- alpha) - 1) / alpha)\<^sup>2) (- 5)),
                self_cname = Some ''frank'', self_tau = t,
                self_cdf = Some cdf_frank, self_derivative = None\<rparr>"
  by (simp add: Copula_def assms truthy_def get_parameter_frank get_cdf_def)

lemma Copula_gumbel:
  assumes "kendalltau lib U V = Inr t"
  shows "Copula lib U V th (Some ''gumbel'') False
         = Inr \<lparr>self_U = U, self_V = V,
                self_theta = Some (if t = 1 then 10000 else 1 / (1 - t)),
                self_cname = Some ''gumbel'', self_tau = t,
                self_cdf = Some cdf_gumbel, self_derivative = None\<rparr>"
  by (simp add: Copula_def assms truthy_def get_parameter_gumbel get_cdf_def)

text \<open>
  Claim C1. Whenever the rank correlation of the sample is at most zero, \<^verbatim>\<open>select_copula\<close>
  returns without computing any profile or cost: the index it returns is \<open>2\<close>, and the
  parameter is the one stored on the Frank instance. In the list
  \<^verbatim>\<open>theta_c = [clayton_c.theta, frank_c.theta, gumbel_c.theta]\<close> that the other path indexes
  with the returned index, Frank is at position \<open>1\<close> and position \<open>2\<close> is Gumbel.
\<close>

theorem select_copula_short_circuit:
  assumes "kendalltau lib U V = Inr t" and "t \<le> 0"
  shows "\<exists>fr. Copula lib U V None (Some ''frank'') False = Inr fr
              \<and> select_copula lib U V = Inr (2, self_theta fr)"
  using assms(2)
  by (simp add: select_copula_def Copula_clayton [OF assms(1)] Copula_frank [OF assms(1)]
        Copula_gumbel [OF assms(1)])

lemma kendalltau_ref_sample2:
  "kendalltau_ref [1/10, 1/5] [1/5, 1/10] = Inr (- 1)"
  by (simp add: kendalltau_ref_def)

theorem select_copula_short_circuit_witness:
  "\<forall>fm q.
     kendalltau (lib_ref fm q) [1/10, 1/5] [1/5, 1/10] = Inr (- 1)
   \<and> (- 1 :: real) \<le> 0
   \<and> (\<exists>fr. Copula (lib_ref fm q) [1/10, 1/5] [1/5, 1/10] None (Some ''frank'') False = Inr fr
           \<and> select_copula (lib_ref fm q) [1/10, 1/5] [1/5, 1/10] = Inr (2, self_theta fr))"
proof (intro allI)
  fix fm q
  have k: "kendalltau (lib_ref fm q) [1/10, 1/5] [1/5, 1/10] = Inr (- 1)"
    by (simp add: lib_ref_def kendalltau_ref_sample2)
  have n: "(- 1 :: real) \<le> 0"
    by simp
  show "kendalltau (lib_ref fm q) [1/10, 1/5] [1/5, 1/10] = Inr (- 1)
   \<and> (- 1 :: real) \<le> 0
   \<and> (\<exists>fr. Copula (lib_ref fm q) [1/10, 1/5] [1/5, 1/10] None (Some ''frank'') False = Inr fr
           \<and> select_copula (lib_ref fm q) [1/10, 1/5] [1/5, 1/10] = Inr (2, self_theta fr))"
    using k n select_copula_short_circuit [OF k n] by blast
qed

text \<open>
  Claim C2. On the sample \<open>U = [0.1, 0.2]\<close>, \<open>V = [0.2, 0.1]\<close> (one discordant pair,
  \<open>tau = -1\<close>) the three constructions succeed and \<^verbatim>\<open>select_copula\<close> returns the index \<open>2\<close>
  with the parameter of the Frank instance, while the entry of \<^verbatim>\<open>theta_c\<close> at index \<open>2\<close> is
  the Gumbel parameter \<open>1/2\<close>: the returned parameter is not the fitted parameter of the
  family the returned index denotes.
\<close>

theorem select_copula_short_circuit_sample:
  "\<exists>c f g.
      Copula (lib_ref fm q) [1/10, 1/5] [1/5, 1/10] None (Some ''clayton'') False = Inr c
    \<and> Copula (lib_ref fm q) [1/10, 1/5] [1/5, 1/10] None (Some ''frank'') False = Inr f
    \<and> Copula (lib_ref fm q) [1/10, 1/5] [1/5, 1/10] None (Some ''gumbel'') False = Inr g
    \<and> select_copula (lib_ref fm q) [1/10, 1/5] [1/5, 1/10] = Inr (2, self_theta f)
    \<and> self_theta f = Some (- fm (\<lambda>alpha. ((1 - (- 1)) / 4 - (debye (- alpha) - 1) / alpha)\<^sup>2) (- 5))
    \<and> [self_theta c, self_theta f, self_theta g] ! 2 = Some (1/2)"
proof -
  have k: "kendalltau (lib_ref fm q) [1/10, 1/5] [1/5, 1/10] = Inr (- 1)"
    by (simp add: lib_ref_def kendalltau_ref_sample2)
  have f: "fmin (lib_ref fm q) = fm"
    by (simp add: lib_ref_def)
  show ?thesis
    by (simp add: select_copula_def Copula_clayton [OF k] Copula_frank [OF k]
        Copula_gumbel [OF k] f)
qed

lemma select_copula_costs:
  fixes t :: real
  defines "tc \<equiv> (if t = 1 then 10000 else 2 * t / (1 - t))"
    and "tg \<equiv> (if t = 1 then 10000 else 1 / (1 - t))"
  assumes k: "kendalltau lib U V = Inr t" and pos: "\<not> t \<le> 0"
    and tf: "tf = - fmin lib (\<lambda>alpha. ((1 - t) / 4 - (debye (- alpha) - 1) / alpha)\<^sup>2) (- 5)"
    and emp: "compute_empirical U V = Inr (zl, map eL zl, zr, map eR zr)"
    and c0l: "cdf_clayton zl zl tc = Inr (map p0 zl)"
    and c0r: "cdf_clayton zr zr tc = Inr (map p0 zr)"
    and c1l: "cdf_frank zl zl tf = Inr (map p1 zl)"
    and c1r: "cdf_frank zr zr tf = Inr (map p1 zr)"
    and c2l: "cdf_gumbel zl zl tg = Inr (map p2 zl)"
    and c2r: "cdf_gumbel zr zr tg = Inr (map p2 zr)"
  shows "select_copula lib U V =
     (case np_argmax
        [sum_list (map (\<lambda>x. (eL x - p0 x / x\<^sup>2)\<^sup>2) zl),
         sum_list (map (\<lambda>x. (eL x - p1 x / x\<^sup>2)\<^sup>2) zl),
         sum_list (map (\<lambda>x. (eL x - p2 x / x\<^sup>2)\<^sup>2) zl),
         sum_list (map (\<lambda>x. (eR x - (1 - 2 * x + p0 x) / (1 - x)\<^sup>2)\<^sup>2) zr),
         sum_list (map (\<lambda>x. (eR x - (1 - 2 * x + p1 x) / (1 - x)\<^sup>2)\<^sup>2) zr),
         sum_list (map (\<lambda>x. (eR x - (1 - 2 * x + p2 x) / (1 - x)\<^sup>2)\<^sup>2) zr)] of
        Inl e \<Rightarrow> Inl e
      | Inr bestC \<Rightarrow>
          (case py_getitem [Some tc, Some tf, Some tg] bestC of
             Inl e \<Rightarrow> Inl e
           | Inr paramC \<Rightarrow> Inr (bestC, paramC)))"
proof -
  let ?cc = "\<lparr>self_U = U, self_V = V, self_theta = Some tc,
                self_cname = Some ''clayton'', self_tau = t,
                self_cdf = Some cdf_clayton, self_derivative = None\<rparr>"
  let ?fc = "\<lparr>self_U = U, self_V = V, self_theta = Some tf,
                self_cname = Some ''frank'', self_tau = t,
                self_cdf = Some cdf_frank, self_derivative = None\<rparr>"
  let ?gc = "\<lparr>self_U = U, self_V = V, self_theta = Some tg,
                self_cname = Some ''gumbel'', self_tau = t,
                self_cdf = Some cdf_gumbel, self_derivative = None\<rparr>"
  have C: "Copula lib U V None (Some ''clayton'') False = Inr ?cc"
    unfolding tc_def by (rule Copula_clayton [OF k])
  have F: "Copula lib U V None (Some ''frank'') False = Inr ?fc"
    unfolding tf by (rule Copula_frank [OF k])
  have G: "Copula lib U V None (Some ''gumbel'') False = Inr ?gc"
    unfolding tg_def by (rule Copula_gumbel [OF k])
  have l0: "left_dep ?cc zl = Inr (map (\<lambda>x. p0 x / x\<^sup>2) zl)"
    by (rule left_dep_diag [where f = cdf_clayton and theta = tc]) (simp_all add: c0l)
  have l1: "left_dep ?fc zl = Inr (map (\<lambda>x. p1 x / x\<^sup>2) zl)"
    by (rule left_dep_diag [where f = cdf_frank and theta = tf]) (simp_all add: c1l)
  have l2: "left_dep ?gc zl = Inr (map (\<lambda>x. p2 x / x\<^sup>2) zl)"
    by (rule left_dep_diag [where f = cdf_gumbel and theta = tg]) (simp_all add: c2l)
  have r0: "right_dep ?cc zr = Inr (map (\<lambda>x. (1 - 2 * x + p0 x) / (1 - x)\<^sup>2) zr)"
    by (rule right_dep_diag [where f = cdf_clayton and theta = tc]) (simp_all add: c0r)
  have r1: "right_dep ?fc zr = Inr (map (\<lambda>x. (1 - 2 * x + p1 x) / (1 - x)\<^sup>2) zr)"
    by (rule right_dep_diag [where f = cdf_frank and theta = tf]) (simp_all add: c1r)
  have r2: "right_dep ?gc zr = Inr (map (\<lambda>x. (1 - 2 * x + p2 x) / (1 - x)\<^sup>2) zr)"
    by (rule right_dep_diag [where f = cdf_gumbel and theta = tg]) (simp_all add: c2r)
  show ?thesis
    unfolding select_copula_def C F G
    using pos
    by (simp add: emp l0 l1 l2 r0 r1 r2 sq_dist_maps Let_def)
qed

text \<open>
  A sample of three points without ties, two pairs concordant and one discordant
  (\<open>tau = 1/3\<close>, so \<open>theta = 1\<close> for Clayton and \<open>3/2\<close> for Gumbel), with every coordinate
  between the grid thresholds \<open>47/49\<close> and \<open>48/49\<close>.
\<close>

lemma kendalltau_ref_sample3:
  "kendalltau_ref [24/25, 193/200, 97/100] [193/200, 24/25, 97/100] = Inr (1/3)"
  by (simp add: kendalltau_ref_def)

lemma lower_prob_sample3:
  "spec_lower_prob [24/25, 193/200, 97/100] [193/200, 24/25, 97/100] z
     = (if 97/100 \<le> z then 1 else if 193/200 \<le> z then 2/3 else 0)"
  by (simp add: spec_lower_prob_def)

lemma upper_prob_sample3:
  "spec_upper_prob [24/25, 193/200, 97/100] [193/200, 24/25, 97/100] z
     = (if z \<le> 24/25 then 1 else if z \<le> 97/100 then 1/3 else 0)"
  by (simp add: spec_upper_prob_def)

lemma spec_grid_explicit:
  "spec_grid = map (\<lambda>k. real k / 49) [0..<48] @ [48/49, 1]"
proof -
  have "[48..<50] = [48, 49 :: nat]"
    by code_simp
  moreover have "[0..<48 + 2] = [0..<48] @ [48..<48 + 2]"
    by (rule upt_add_eq_append) simp
  ultimately have "[0..<50] = [0..<48] @ [48, 49]"
    by simp
  then show ?thesis
    by (simp add: spec_grid_def)
qed


lemma spec_grid_range: "x \<in> set spec_grid \<Longrightarrow> 0 \<le> x \<and> x \<le> 1"
  by (auto simp: spec_grid_def)

lemma z_left_sample3:
  "filter (\<lambda>z. 0 < spec_lower_prob [24/25, 193/200, 97/100] [193/200, 24/25, 97/100] z) spec_grid
     = [48/49, 1]"
proof -
  have "filter (\<lambda>z. 0 < spec_lower_prob [24/25, 193/200, 97/100] [193/200, 24/25, 97/100] z)
          (map (\<lambda>k. real k / 49) [0..<48]) = []"
    by (auto simp: filter_empty_conv lower_prob_sample3)
  then show ?thesis
    by (simp add: spec_grid_explicit lower_prob_sample3)
qed

lemma z_right_sample3:
  "47/49 \<in> set (filter (\<lambda>z. 0 < spec_upper_prob [24/25, 193/200, 97/100] [193/200, 24/25, 97/100] z) spec_grid)"
proof -
  have "spec_grid ! 47 \<in> set spec_grid"
    by (rule nth_mem) (simp add: length_spec_grid)
  then have "47/49 \<in> set spec_grid"
    by (simp add: nth_spec_grid)
  then show ?thesis
    by (simp add: upper_prob_sample3)
qed

lemma cost_left_small:
  assumes "0 \<le> a" "a \<le> 1" "0 \<le> b" "b \<le> (1::real)"
  shows "(1 / (48/49)\<^sup>2 - a / (48/49)\<^sup>2)\<^sup>2 + (1 / 1\<^sup>2 - b / 1\<^sup>2)\<^sup>2 < 3"
proof -
  have "1 / (48/49)\<^sup>2 - a / (48/49)\<^sup>2 = (2401/2304) * (1 - a)"
    by (simp add: power2_eq_square algebra_simps)
  then have "(1 / (48/49)\<^sup>2 - a / (48/49)\<^sup>2)\<^sup>2 = ((2401/2304) * (1 - a))\<^sup>2"
    by (rule arg_cong)
  also have "\<dots> = (2401/2304)\<^sup>2 * (1 - a)\<^sup>2"
    by (rule power_mult_distrib)
  also have "\<dots> \<le> (2401/2304)\<^sup>2 * 1"
    using assms(1,2) by (intro mult_left_mono power_le_one) simp_all
  finally have l: "(1 / (48/49)\<^sup>2 - a / (48/49)\<^sup>2)\<^sup>2 \<le> (2401/2304)\<^sup>2"
    by simp
  have "(1 - b)\<^sup>2 \<le> 1"
    using assms(3,4) by (intro power_le_one) simp_all
  then have r: "(1 / 1\<^sup>2 - b / 1\<^sup>2)\<^sup>2 \<le> 1"
    by simp
  have "(2401/2304 :: real)\<^sup>2 + 1 < 3"
    by (simp add: power2_eq_square)
  with l r show ?thesis
    by linarith
qed

lemma cost_right_large:
  "(3::real) < (1 / (1 - 47/49)\<^sup>2 - (1 - 2 * (47/49) + (47/49) / (2 - 47/49)) / (1 - 47/49)\<^sup>2)\<^sup>2"
  by (simp add: power2_eq_square)

lemma compute_empirical_sample3:
  "compute_empirical [24/25, 193/200, 97/100] [193/200, 24/25, 97/100]
   = Inr ([48/49, 1],
          map (\<lambda>z. spec_lower_prob [24/25, 193/200, 97/100] [193/200, 24/25, 97/100] z / z\<^sup>2) [48/49, 1],
          filter (\<lambda>z. 0 < spec_upper_prob [24/25, 193/200, 97/100] [193/200, 24/25, 97/100] z) spec_grid,
          map (\<lambda>z. spec_upper_prob [24/25, 193/200, 97/100] [193/200, 24/25, 97/100] z / (1 - z)\<^sup>2)
            (filter (\<lambda>z. 0 < spec_upper_prob [24/25, 193/200, 97/100] [193/200, 24/25, 97/100] z) spec_grid))"
proof -
  have "compute_empirical [24/25, 193/200, 97/100] [193/200, 24/25, 97/100]
        = Inr (spec_tail_profile [24/25, 193/200, 97/100] [193/200, 24/25, 97/100] spec_grid)"
    using empirical_loop_profile [OF _ _ sorted_spec_grid, of "[24/25, 193/200, 97/100]" "[193/200, 24/25, 97/100]" 0]
    by (simp add: compute_empirical_def np_linspace_spec_grid Let_def spec_tail_profile_def)
  then show ?thesis
    unfolding spec_tail_profile_def z_left_sample3 .
qed

text \<open>
  Claim C3. On this sample the comparison path does not return a family. The three
  lower-tail costs and the three upper-tail costs are appended into one list of six; the
  upper-tail cost of Clayton alone exceeds every lower-tail cost, so the first position of
  the largest entry is at least \<open>3\<close> and the lookup \<^verbatim>\<open>theta_c[bestC]\<close> in the list of three
  parameters raises \<^verbatim>\<open>IndexError\<close>. This holds for every minimiser and quadrature routine;
  when the minimiser yields a negative Frank parameter the Frank evaluator raises first.
\<close>

theorem select_copula_index_error:
  "select_copula (lib_ref fm q) [24/25, 193/200, 97/100] [193/200, 24/25, 97/100]
   = (if - fm (\<lambda>alpha. ((1 - 1/3) / 4 - (debye (- alpha) - 1) / alpha)\<^sup>2) (- 5) < 0
      then Inl (ValueError ''Theta cannot be less than 0 for Frank'')
      else Inl IndexError)"
proof -
  define tf where "tf = - fm (\<lambda>alpha. ((1 - 1/3) / 4 - (debye (- alpha) - 1) / alpha)\<^sup>2) (- 5)"
  let ?U = "[24/25, 193/200, 97/100 :: real]"
  let ?V = "[193/200, 24/25, 97/100 :: real]"
  let ?lib = "lib_ref fm q"
  let ?zr = "filter (\<lambda>z. 0 < spec_upper_prob ?U ?V z) spec_grid"
  have k: "kendalltau ?lib ?U ?V = Inr (1/3)"
    by (simp add: lib_ref_def kendalltau_ref_sample3)
  have tf': "tf = - fmin ?lib (\<lambda>alpha. ((1 - 1/3) / 4 - (debye (- alpha) - 1) / alpha)\<^sup>2) (- 5)"
    by (simp add: tf_def lib_ref_def)
  have rl: "\<And>x. x \<in> set [48/49, 1 :: real] \<Longrightarrow> 0 \<le> x \<and> x \<le> 1"
    by auto
  have rr: "\<And>x. x \<in> set ?zr \<Longrightarrow> 0 \<le> x \<and> x \<le> 1"
    by (simp add: spec_grid_range)
  have c0l: "cdf_clayton [48/49, 1] [48/49, 1] (if (1/3::real) = 1 then 10000 else 2 * (1/3) / (1 - 1/3))
             = Inr (map (clayton_pt 1) [48/49, 1])"
    using cdf_clayton_diag [of 1 "[48/49, 1]", OF _ rl] by simp
  have c0r: "cdf_clayton ?zr ?zr (if (1/3::real) = 1 then 10000 else 2 * (1/3) / (1 - 1/3))
             = Inr (map (clayton_pt 1) ?zr)"
    using cdf_clayton_diag [of 1 ?zr, OF _ rr] by simp
  have c2l: "cdf_gumbel [48/49, 1] [48/49, 1] (if (1/3::real) = 1 then 10000 else 1 / (1 - 1/3))
             = Inr (map (gumbel_pt (3/2)) [48/49, 1])"
    using cdf_gumbel_diag [of "3/2" "[48/49, 1]", OF _ rl] by simp
  have c2r: "cdf_gumbel ?zr ?zr (if (1/3::real) = 1 then 10000 else 1 / (1 - 1/3))
             = Inr (map (gumbel_pt (3/2)) ?zr)"
    using cdf_gumbel_diag [of "3/2" ?zr, OF _ rr] by simp
  show ?thesis
  proof (cases "tf < 0")
    case True
    have l0: "left_dep \<lparr>self_U = ?U, self_V = ?V, self_theta = Some 1,
                self_cname = Some ''clayton'', self_tau = 1/3,
                self_cdf = Some cdf_clayton, self_derivative = None\<rparr> [48/49, 1]
              = Inr (map (\<lambda>x. clayton_pt 1 x / x\<^sup>2) [48/49, 1])"
      using c0l by (intro left_dep_diag [where f = cdf_clayton and theta = 1]) simp_all
    have l1: "left_dep \<lparr>self_U = ?U, self_V = ?V, self_theta = Some tf,
                self_cname = Some ''frank'', self_tau = 1/3,
                self_cdf = Some cdf_frank, self_derivative = None\<rparr> [48/49, 1]
              = Inl (ValueError ''Theta cannot be less than 0 for Frank'')"
      using True by (simp add: left_dep_def call_cdf_def cdf_frank_def)
    have "select_copula ?lib ?U ?V = Inl (ValueError ''Theta cannot be less than 0 for Frank'')"
      unfolding select_copula_def Copula_clayton [OF k] Copula_frank [OF k] Copula_gumbel [OF k]
        tf' [symmetric]
      by (simp add: compute_empirical_sample3 l0 l1 del: list.map)
    with True show ?thesis
      by (simp add: tf_def)
  next
    case False
    then have nn: "0 \<le> tf" by simp
    have c1l: "cdf_frank [48/49, 1] [48/49, 1] tf = Inr (map (frank_pt tf) [48/49, 1])"
      by (rule cdf_frank_diag [OF nn])
    have c1r: "cdf_frank ?zr ?zr tf = Inr (map (frank_pt tf) ?zr)"
      by (rule cdf_frank_diag [OF nn])
    have pos: "\<not> (1/3 :: real) \<le> 0"
      by simp
    note costs = select_copula_costs [OF k pos tf' compute_empirical_sample3 c0l c0r c1l c1r c2l c2r]
    have lp1: "spec_lower_prob ?U ?V (48/49) = 1" "spec_lower_prob ?U ?V 1 = 1"
      by (simp_all add: lower_prob_sample3)
    have up1: "spec_upper_prob ?U ?V (47/49) = 1"
      by (simp add: upper_prob_sample3)
    have cl: "clayton_pt 1 (48/49) = 24/25" "clayton_pt 1 1 = 1" "clayton_pt 1 (47/49) = (47/49) / (2 - 47/49)"
      by (simp_all add: clayton_pt_one)
    have L0: "sum_list (map (\<lambda>x. (spec_lower_prob ?U ?V x / x\<^sup>2 - clayton_pt 1 x / x\<^sup>2)\<^sup>2) [48/49, 1]) < 3"
      using cost_left_small [of "24/25" 1] by (simp add: lp1 cl)
    have L1: "sum_list (map (\<lambda>x. (spec_lower_prob ?U ?V x / x\<^sup>2 - frank_pt tf x / x\<^sup>2)\<^sup>2) [48/49, 1]) < 3"
      using cost_left_small [of "frank_pt tf (48/49)" "frank_pt tf 1"]
        frank_pt_bounds [OF nn, of "48/49"] frank_pt_bounds [OF nn, of 1]
      by (simp add: lp1)
    have L2: "sum_list (map (\<lambda>x. (spec_lower_prob ?U ?V x / x\<^sup>2 - gumbel_pt (3/2) x / x\<^sup>2)\<^sup>2) [48/49, 1]) < 3"
      using cost_left_small [of "gumbel_pt (3/2) (48/49)" "gumbel_pt (3/2) 1"]
        gumbel_pt_bounds [of "3/2" "48/49"] gumbel_pt_bounds [of "3/2" 1]
      by (simp add: lp1)
    have "((\<lambda>x. spec_upper_prob ?U ?V x / (1 - x)\<^sup>2 - (1 - 2 * x + clayton_pt 1 x) / (1 - x)\<^sup>2) (47/49))\<^sup>2
          \<le> sum_list (map (\<lambda>x. ((\<lambda>x. spec_upper_prob ?U ?V x / (1 - x)\<^sup>2 - (1 - 2 * x + clayton_pt 1 x) / (1 - x)\<^sup>2) x)\<^sup>2) ?zr)"
      by (rule sum_list_sq_ge [OF z_right_sample3])
    then have R0: "3 < sum_list (map (\<lambda>x. (spec_upper_prob ?U ?V x / (1 - x)\<^sup>2 - (1 - 2 * x + clayton_pt 1 x) / (1 - x)\<^sup>2)\<^sup>2) ?zr)"
      using cost_right_large by (simp add: up1 cl)
    obtain i where i: "np_argmax
        [sum_list (map (\<lambda>x. (spec_lower_prob ?U ?V x / x\<^sup>2 - clayton_pt 1 x / x\<^sup>2)\<^sup>2) [48/49, 1]),
         sum_list (map (\<lambda>x. (spec_lower_prob ?U ?V x / x\<^sup>2 - frank_pt tf x / x\<^sup>2)\<^sup>2) [48/49, 1]),
         sum_list (map (\<lambda>x. (spec_lower_prob ?U ?V x / x\<^sup>2 - gumbel_pt (3/2) x / x\<^sup>2)\<^sup>2) [48/49, 1]),
         sum_list (map (\<lambda>x. (spec_upper_prob ?U ?V x / (1 - x)\<^sup>2 - (1 - 2 * x + clayton_pt 1 x) / (1 - x)\<^sup>2)\<^sup>2) ?zr),
         sum_list (map (\<lambda>x. (spec_upper_prob ?U ?V x / (1 - x)\<^sup>2 - (1 - 2 * x + frank_pt tf x) / (1 - x)\<^sup>2)\<^sup>2) ?zr),
         sum_list (map (\<lambda>x. (spec_upper_prob ?U ?V x / (1 - x)\<^sup>2 - (1 - 2 * x + gumbel_pt (3/2) x) / (1 - x)\<^sup>2)\<^sup>2) ?zr)]
        = Inr i" and i3: "3 \<le> i"
      using np_argmax_six [of _ _ _ _ _ _] L0 L1 L2 R0
      by (meson less_trans)
    have "select_copula ?lib ?U ?V = Inl IndexError"
      unfolding costs i using i3
      by (simp add: py_getitem_def)
    with False show ?thesis
      by (simp add: tf_def)
  qed
qed

end
